theory Spec2Isabelle
  imports Complex_Main "HOL-Library.Char_ord"
begin

section \<open>Data model\<close>

text \<open>
  The development follows \<^verbatim>\<open>src/trading_clients/base_client.py\<close> (class
  \<^verbatim>\<open>BaseClient\<close>) and \<^verbatim>\<open>src/strategy.py\<close> (class \<^verbatim>\<open>TradingApp\<close>).

  Conventions of the embedding.
  \<^item> Currency amounts are Python floats in the source; they are real numbers here, so
    sums and comparisons are exact (rounding and NaN are outside the model).
  \<^item> A Python \<^verbatim>\<open>dict\<close> keeps insertion order and is an association list here:
    the account table \<^verbatim>\<open>Dict[int, str]\<close> and a holdings snapshot
    \<^verbatim>\<open>Dict[str, float]\<close>.
  \<^item> \<^verbatim>\<open>self.accounts\<close> is declared a dict, but a venue may store \<^verbatim>\<open>None\<close>
    there (\<^verbatim>\<open>BbaeClient.authenticate\<close> assigns the result of
    \<^verbatim>\<open>_fetch_accounts\<close>, which can be \<^verbatim>\<open>None\<close>), so the field is an option.
  \<^item> The abstract methods of \<^verbatim>\<open>BaseClient\<close> are fields of the client record.
    Each gives the venue's answer to a call: either a raised exception (\<open>Inl\<close>) or a
    returned value (\<open>Inr\<close>). An answer depends on the arguments of the call only.
  \<^item> An awaited coroutine yields its result together with the list of external calls and
    sleeps it performed, in order. Logging is not recorded; what is kept of a log
    statement is the evaluation of \<^verbatim>\<open>get_account_number_from_id\<close> in its message,
    which raises when \<^verbatim>\<open>self.accounts\<close> is \<^verbatim>\<open>None\<close>.
\<close>

datatype exn =
    TimeoutError | ValueError | EOFError | AttributeError | TypeError | OtherException string

datatype delay_time = Uniform real real | Fixed real

datatype event =
    Is_tradable string
  | Is_market_open
  | Get_stock_holdings string
  | Get_account_balance string
  | Raw_place_buy string string real string
  | Raw_place_sell string string real string
  | Sleep delay_time

type_synonym account_table = "(int \<times> string) list"

type_synonym holdings = "(string \<times> real) list"

record client =
  brokerage_name :: string
  transaction_fee :: real
  delay :: bool
  concur_trades :: int
  authenticated :: bool
  accounts :: "account_table option"
  authenticate ::
    "bool \<Rightarrow> account_table option \<Rightarrow> (exn + bool) \<times> bool \<times> account_table option"
  get_account_balance :: "string \<Rightarrow> exn + real option"
  get_stock_holdings :: "string \<Rightarrow> exn + holdings option"
  is_tradable :: "string \<Rightarrow> exn + bool"
  is_market_open :: "exn + bool"
  raw_place_buy_orders :: "string \<Rightarrow> string \<Rightarrow> real \<Rightarrow> string \<Rightarrow> exn + bool"
  raw_place_sell_orders :: "string \<Rightarrow> string \<Rightarrow> real \<Rightarrow> string \<Rightarrow> exn + bool"

text \<open>
  The field \<open>authenticate\<close> takes the values of \<^verbatim>\<open>self.authenticated\<close> and
  \<^verbatim>\<open>self.accounts\<close> before the call and gives the outcome of the call with the values
  the call leaves in both. The fields \<open>raw_place_buy_orders\<close> and
  \<open>raw_place_sell_orders\<close> are \<^verbatim>\<open>_place_buy_orders\<close> and
  \<^verbatim>\<open>_place_sell_orders\<close>; \<open>is_market_open\<close> is the static method that asks the
  market calendar and the clock.
\<close>

section \<open>Awaited calls: result and trace\<close>

type_synonym 'a io = "(exn + 'a) \<times> event list"

definition io_return :: "'a \<Rightarrow> 'a io" where
  "io_return x = (Inr x, [])"

definition io_call :: "event \<Rightarrow> exn + 'a \<Rightarrow> 'a io" where
  "io_call ev answer = (answer, [ev])"

definition io_pure :: "exn + 'a \<Rightarrow> 'a io" where
  "io_pure result = (result, [])"

definition io_bind :: "'a io \<Rightarrow> ('a \<Rightarrow> 'b io) \<Rightarrow> 'b io" where
  "io_bind m f =
     (case fst m of
        Inl e \<Rightarrow> (Inl e, snd m)
      | Inr x \<Rightarrow> (fst (f x), snd m @ snd (f x)))"

section \<open>BaseClient\<close>

text \<open>
  \<^verbatim>\<open>get_account_number_from_id\<close>: the first key of the account table whose value
  is the account id, \<^verbatim>\<open>None\<close> when there is none. \<^verbatim>\<open>self.accounts.items()\<close>
  raises \<^verbatim>\<open>AttributeError\<close> when \<^verbatim>\<open>self.accounts\<close> is \<^verbatim>\<open>None\<close>.
\<close>

definition get_account_number_from_id :: "client \<Rightarrow> string \<Rightarrow> exn + int option" where
  "get_account_number_from_id c account_id =
     (case accounts c of
        None \<Rightarrow> Inl AttributeError
      | Some table \<Rightarrow>
          Inr (case filter (\<lambda>item. snd item = account_id) table of
                 [] \<Rightarrow> None
               | item # _ \<Rightarrow> Some (fst item)))"

definition get_trade_delay :: "client \<Rightarrow> unit io" where
  "get_trade_delay c =
     io_call (Sleep (if delay c then Uniform 4 6 else Fixed 1)) (Inr ())"

text \<open>
  \<^verbatim>\<open>has_position\<close> returns \<^verbatim>\<open>ticker in holdings if holdings else False\<close>: a
  boolean, also when the holdings are \<^verbatim>\<open>None\<close> or the empty dict. The result is
  wrapped in \<open>Some\<close> because the caller tests it with \<^verbatim>\<open>is not None\<close>.
\<close>

definition has_position :: "client \<Rightarrow> string \<Rightarrow> string \<Rightarrow> bool option io" where
  "has_position c account_id ticker =
     io_bind (io_call (Get_stock_holdings account_id) (get_stock_holdings c account_id))
       (\<lambda>holdings.
          io_return (Some (case holdings of
                             None \<Rightarrow> False
                           | Some h \<Rightarrow> if h \<noteq> [] then ticker \<in> set (map fst h) else False)))"

definition check_preconditions ::
    "client \<Rightarrow> string \<Rightarrow> string \<Rightarrow> real \<Rightarrow> string \<Rightarrow> bool io" where
  "check_preconditions c account_id ticker price side =
     (if \<not> authenticated c then io_return False
      else
      io_bind (io_call (Is_tradable ticker) (is_tradable c ticker)) (\<lambda>tradable.
      if \<not> tradable then io_return False
      else
      io_bind (io_call Is_market_open (is_market_open c)) (\<lambda>market_open.
      if \<not> market_open then io_return False
      else
      io_bind (has_position c account_id ticker) (\<lambda>has_pos.
      if (case has_pos of
            None \<Rightarrow> False
          | Some held \<Rightarrow> (side = ''buy'' \<and> held) \<or> (side = ''sell'' \<and> \<not> held))
      then io_bind (io_pure (get_account_number_from_id c account_id)) (\<lambda>_. io_return False)
      else if side = ''buy'' then
        io_bind (io_call (Get_account_balance account_id) (get_account_balance c account_id))
          (\<lambda>account_balance.
             if (case account_balance of
                   None \<Rightarrow> True
                 | Some b \<Rightarrow> b < price + transaction_fee c + 0.2)
             then io_bind (io_pure (get_account_number_from_id c account_id))
                    (\<lambda>_. io_return False)
             else io_return True)
      else io_return True))))"

definition place_buy_orders ::
    "client \<Rightarrow> string \<Rightarrow> string \<Rightarrow> real \<Rightarrow> string \<Rightarrow> bool io" where
  "place_buy_orders c account_id ticker price order_type =
     io_bind (check_preconditions c account_id ticker price ''buy'') (\<lambda>ok.
     if \<not> ok then io_return False
     else
     io_bind (io_call (Raw_place_buy account_id ticker price order_type)
                (raw_place_buy_orders c account_id ticker price order_type)) (\<lambda>placed.
     if placed then
       io_bind (io_pure (get_account_number_from_id c account_id)) (\<lambda>_.
       io_bind (get_trade_delay c) (\<lambda>_. io_return True))
     else io_bind (get_trade_delay c) (\<lambda>_. io_return False)))"

definition place_sell_orders ::
    "client \<Rightarrow> string \<Rightarrow> string \<Rightarrow> real \<Rightarrow> string \<Rightarrow> bool io" where
  "place_sell_orders c account_id ticker price order_type =
     io_bind (check_preconditions c account_id ticker price ''sell'') (\<lambda>ok.
     if \<not> ok then io_return False
     else
     io_bind (io_call (Raw_place_sell account_id ticker price order_type)
                (raw_place_sell_orders c account_id ticker price order_type)) (\<lambda>placed.
     if placed then
       io_bind (io_pure (get_account_number_from_id c account_id)) (\<lambda>_.
       io_bind (get_trade_delay c) (\<lambda>_. io_return True))
     else io_bind (get_trade_delay c) (\<lambda>_. io_return False)))"

section \<open>TradingApp: initialisation\<close>

text \<open>
  \<^verbatim>\<open>self.clients\<close> is a fixed list of distinct objects. A reference to a client is
  its position in that list, so \<^verbatim>\<open>self.authenticated_clients\<close> is a list of
  positions.
\<close>

record trading_app =
  clients :: "client list"
  initialized :: bool
  authenticated_clients :: "nat list"

text \<open>
  \<^verbatim>\<open>_verify_account_access\<close>: the balance of the first account must be retrievable.
  The 15 second timeout and every other exception of the balance call are answers
  \<open>Inl\<close> of the venue; all are caught and give \<^verbatim>\<open>False\<close>.
\<close>

definition verify_account_access :: "client \<Rightarrow> bool" where
  "verify_account_access c =
     (case accounts c of
        None \<Rightarrow> False
      | Some [] \<Rightarrow> False
      | Some (first_account # _) \<Rightarrow>
          (case get_account_balance c (snd first_account) of
             Inl e \<Rightarrow> False
           | Inr None \<Rightarrow> False
           | Inr (Some balance) \<Rightarrow> True))"

text \<open>
  One iteration of the loop of \<^verbatim>\<open>initialize\<close> over \<^verbatim>\<open>self.clients\<close>, for the
  client at position \<open>i\<close>. The 30 second timeout is the answer \<open>Inl TimeoutError\<close> of
  \<open>authenticate\<close>; it and every other exception lead to \<^verbatim>\<open>continue\<close>.
\<close>

definition authenticate_client :: "nat \<Rightarrow> trading_app \<Rightarrow> trading_app" where
  "authenticate_client i app =
     (let c = clients app ! i;
          (result, auth', accounts') = authenticate c (authenticated c) (accounts c);
          c' = c\<lparr>authenticated := auth', accounts := accounts'\<rparr>;
          app' = app\<lparr>clients := (clients app)[i := c']\<rparr>
      in case result of
           Inl e \<Rightarrow> app'
         | Inr is_authenticated \<Rightarrow>
             if is_authenticated then
               let app'' = app'\<lparr>authenticated_clients := authenticated_clients app' @ [i]\<rparr>
               in if \<not> verify_account_access c'
                  then app''\<lparr>authenticated_clients := remove1 i (authenticated_clients app'')\<rparr>
                  else app''
             else app')"

text \<open>
  \<^verbatim>\<open>str.lower\<close>. Strings are byte strings here; the ASCII capitals are the only
  characters changed.
\<close>

definition lower_char :: "char \<Rightarrow> char" where
  "lower_char ch =
     (if CHR ''A'' \<le> ch \<and> ch \<le> CHR ''Z'' then char_of (of_char ch + (32 :: nat)) else ch)"

definition lower :: "string \<Rightarrow> string" where
  "lower s = map lower_char s"

text \<open>
  \<^verbatim>\<open>initialize\<close>. The first argument is what \<^verbatim>\<open>input(...)\<close> gives when the
  operator is asked whether to continue with the authenticated clients only: the line
  typed, or an exception (end of input), which nothing catches.
\<close>

definition initialize :: "exn + string \<Rightarrow> trading_app \<Rightarrow> (exn + bool) \<times> trading_app" where
  "initialize answer app =
     (if initialized app then (Inr True, app)
      else
        let app1 = app\<lparr>authenticated_clients := []\<rparr>;
            app2 = fold authenticate_client [0..<length (clients app1)] app1
        in if authenticated_clients app2 = [] then (Inr False, app2)
           else
             let total_clients = length (clients app2);
                 successful_clients = length (authenticated_clients app2)
             in if successful_clients < total_clients then
                  (case answer of
                     Inl e \<Rightarrow> (Inl e, app2)
                   | Inr response \<Rightarrow>
                       if lower response \<noteq> ''yes'' then (Inr False, app2)
                       else (Inr True, app2\<lparr>initialized := True\<rparr>))
                else (Inr True, app2\<lparr>initialized := True\<rparr>))"

text \<open>
  A backend succeeds when \<^verbatim>\<open>authenticate()\<close> returns \<^verbatim>\<open>True\<close> and the
  verification of the client, as the call left it, returns \<^verbatim>\<open>True\<close>.
\<close>

definition auth_succeeds :: "client \<Rightarrow> bool" where
  "auth_succeeds c =
     (case authenticate c (authenticated c) (accounts c) of
        (result, auth', accounts') \<Rightarrow>
          result = Inr True
          \<and> verify_account_access (c\<lparr>authenticated := auth', accounts := accounts'\<rparr>))"

section \<open>TradingApp: trade execution\<close>

text \<open>
  \<^verbatim>\<open>asyncio.gather(*tasks)\<close> without \<^verbatim>\<open>return_exceptions\<close>: the list of all
  results when every task returns, an exception when a task raises. When several tasks
  raise, the event loop propagates the one raised first in time; the model takes the
  first one in task order.
\<close>

fun gather :: "(exn + 'a) list \<Rightarrow> exn + 'a list" where
  "gather [] = Inr []"
| "gather (r # rs) =
     (case r of
        Inl e \<Rightarrow> Inl e
      | Inr x \<Rightarrow> (case gather rs of Inl e \<Rightarrow> Inl e | Inr xs \<Rightarrow> Inr (x # xs)))"



subsection \<open>The semaphore\<close>

text \<open>
  Each task of \<^verbatim>\<open>execute_client_trades\<close> runs
  \<^verbatim>\<open>async with semaphore: return await client.place_..._orders(...)\<close>.
  A task is waiting to enter the block, inside it (its placement call is in flight), or
  done. \<^verbatim>\<open>asyncio.Semaphore\<close> is a counter: entering the block takes a permit and
  is possible only while the counter is positive, leaving the block (by return or by an
  exception) gives the permit back. Which task moves next is the event loop's choice: a
  schedule is the list of the tasks chosen, by position.
\<close>

datatype task_state = Waiting | In_flight | Done

record limiter =
  permits :: nat
  tasks :: "task_state list"

definition start_trades :: "client \<Rightarrow> limiter" where
  "start_trades c =
     \<lparr>permits = nat (concur_trades c),
      tasks = (case accounts c of
                 None \<Rightarrow> []
               | Some table \<Rightarrow> map (\<lambda>account_id. Waiting) (map snd table))\<rparr>"

definition task_step :: "nat \<Rightarrow> limiter \<Rightarrow> limiter" where
  "task_step i s =
     (if i < length (tasks s) then
        (case tasks s ! i of
           Waiting \<Rightarrow>
             if 0 < permits s
             then s\<lparr>permits := permits s - 1, tasks := (tasks s)[i := In_flight]\<rparr>
             else s
         | In_flight \<Rightarrow> s\<lparr>permits := permits s + 1, tasks := (tasks s)[i := Done]\<rparr>
         | Done \<Rightarrow> s)
      else s)"

definition run_schedule :: "nat list \<Rightarrow> limiter \<Rightarrow> limiter" where
  "run_schedule schedule s = fold task_step schedule s"

definition in_flight :: "limiter \<Rightarrow> nat" where
  "in_flight s = length (filter (\<lambda>t. t = In_flight) (tasks s))"

section \<open>TradingApp: balance aggregation\<close>

text \<open>
  The inner loop of \<^verbatim>\<open>get_all_account_balances\<close>:
  \<^verbatim>\<open>balance = balance if balance else 0.0; brokerage_total += balance\<close>.
  \<^verbatim>\<open>None\<close> and \<^verbatim>\<open>0.0\<close> are the values that are not truthy.
\<close>

definition sum_balances :: "real option list \<Rightarrow> real" where
  "sum_balances balances =
     foldl (\<lambda>brokerage_total balance.
              brokerage_total
              + (case balance of None \<Rightarrow> 0 | Some b \<Rightarrow> if b \<noteq> 0 then b else 0))
       0 balances"

text \<open>
  The outer loop, over the clients that are left, from the totals so far. A client with
  no account is skipped. A balance call that raises makes \<^verbatim>\<open>gather\<close> raise, and
  nothing catches it.
\<close>

fun balances_loop ::
    "client list \<Rightarrow> (string \<rightharpoonup> real) \<times> real \<Rightarrow> exn + (string \<rightharpoonup> real) \<times> real" where
  "balances_loop [] totals = Inr totals"
| "balances_loop (c # cs) (brokerage_totals, grand_total) =
     (case accounts c of
        None \<Rightarrow> balances_loop cs (brokerage_totals, grand_total)
      | Some table \<Rightarrow>
          if table = [] then balances_loop cs (brokerage_totals, grand_total)
          else
            case gather (map (get_account_balance c) (map snd table)) of
              Inl e \<Rightarrow> Inl e
            | Inr balances \<Rightarrow>
                let brokerage_total = sum_balances balances
                in balances_loop cs
                     (brokerage_totals(brokerage_name c \<mapsto> brokerage_total),
                      grand_total + brokerage_total))"

text \<open>
  \<^verbatim>\<open>total_accnts = sum(len(client.accounts) for client in self.clients)\<close>;
  \<^verbatim>\<open>len(None)\<close> raises \<^verbatim>\<open>TypeError\<close>.
\<close>

fun total_accounts :: "client list \<Rightarrow> exn + int" where
  "total_accounts [] = Inr 0"
| "total_accounts (c # cs) =
     (case accounts c of
        None \<Rightarrow> Inl TypeError
      | Some table \<Rightarrow>
          (case total_accounts cs of
             Inl e \<Rightarrow> Inl e
           | Inr n \<Rightarrow> Inr (int (length table) + n)))"

text \<open>
  \<^verbatim>\<open>get_all_account_balances\<close> returns \<^verbatim>\<open>brokerage_totals\<close>; before that
  it counts the accounts and logs the count with \<^verbatim>\<open>grand_total\<close>. The model gives
  \<^verbatim>\<open>brokerage_totals\<close> and \<^verbatim>\<open>grand_total\<close>.
\<close>

definition get_all_account_balances ::
    "trading_app \<Rightarrow> exn + (string \<rightharpoonup> real) \<times> real" where
  "get_all_account_balances app =
     (case balances_loop (clients app) (Map.empty, 0) of
        Inl e \<Rightarrow> Inl e
      | Inr totals \<Rightarrow>
          (case total_accounts (clients app) of
             Inl e \<Rightarrow> Inl e
           | Inr total_accnts \<Rightarrow> Inr totals))"

text \<open>
  What the claim on aggregation speaks of: the account ids of a backend
  (\<^verbatim>\<open>accounts.values()\<close>, none when there is no table), the balances of these
  accounts in the order of the account table, and their sum with every \<^verbatim>\<open>None\<close>
  counted as zero.
\<close>

definition account_ids :: "client \<Rightarrow> string list" where
  "account_ids c = (case accounts c of None \<Rightarrow> [] | Some table \<Rightarrow> map snd table)"

definition account_balances :: "client \<Rightarrow> real option list" where
  "account_balances c =
     map (\<lambda>account_id. case get_account_balance c account_id of Inl e \<Rightarrow> None | Inr b \<Rightarrow> b)
       (account_ids c)"

definition subtotal :: "real option list \<Rightarrow> real" where
  "subtotal balances = sum_list (map (\<lambda>balance. case balance of None \<Rightarrow> 0 | Some b \<Rightarrow> b) balances)"

section \<open>Example venues\<close>

text \<open>
  A venue with three accounts. Account \<open>A1\<close> holds one share of \<open>XYZ\<close>, account
  \<open>A2\<close> holds \<open>ABC\<close> only and has a balance of 10.20, the holdings of account
  \<open>A3\<close> cannot be fetched. Every order the venue receives is placed.
\<close>

definition demo_accounts :: account_table where
  "demo_accounts = [(1, ''A1''), (2, ''A2''), (3, ''A3'')]"

definition demo_venue :: client where
  "demo_venue =
     \<lparr>brokerage_name = ''Demo'', transaction_fee = 0, delay = True, concur_trades = 2,
      authenticated = True, accounts = Some demo_accounts,
      authenticate = (\<lambda>auth accs. (Inr True, True, Some demo_accounts)),
      get_account_balance =
        (\<lambda>a. if a = ''A1'' then Inr (Some 100)
             else if a = ''A2'' then Inr (Some 10.2)
             else if a = ''A3'' then Inr (Some 50)
             else Inr None),
      get_stock_holdings =
        (\<lambda>a. if a = ''A1'' then Inr (Some [(''XYZ'', 1)])
             else if a = ''A2'' then Inr (Some [(''ABC'', 2)])
             else Inr None),
      is_tradable = (\<lambda>t. Inr True),
      is_market_open = Inr True,
      raw_place_buy_orders = (\<lambda>a t p ot. Inr True),
      raw_place_sell_orders = (\<lambda>a t p ot. Inr True)\<rparr>"

text \<open>The same venue when it rejects every order, and when its order call raises.\<close>

definition rejecting_venue :: client where
  "rejecting_venue =
     demo_venue\<lparr>raw_place_buy_orders := (\<lambda>a t p ot. Inr False),
                raw_place_sell_orders := (\<lambda>a t p ot. Inr False)\<rparr>"

definition raising_venue :: client where
  "raising_venue =
     demo_venue\<lparr>raw_place_buy_orders := (\<lambda>a t p ot. Inl (OtherException ''connection reset'')),
                raw_place_sell_orders := (\<lambda>a t p ot. Inl (OtherException ''connection reset''))\<rparr>"

text \<open>A venue whose second account has no retrievable balance.\<close>

definition ledger_venue :: client where
  "ledger_venue =
     demo_venue\<lparr>brokerage_name := ''Ledger'',
                get_account_balance :=
                  (\<lambda>a. if a = ''A1'' then Inr (Some 100)
                       else if a = ''A3'' then Inr (Some 50)
                       else Inr None)\<rparr>"

text \<open>
  Venues before initialisation: one that logs in and finds its accounts, one whose login
  is refused and leaves \<^verbatim>\<open>None\<close> as its account table, one whose login times out.
\<close>

definition fresh_venue :: client where
  "fresh_venue = demo_venue\<lparr>authenticated := False, accounts := Some []\<rparr>"

definition refused_venue :: client where
  "refused_venue =
     fresh_venue\<lparr>brokerage_name := ''Refused'',
                 authenticate := (\<lambda>auth accs. (Inr False, False, None))\<rparr>"

definition slow_venue :: client where
  "slow_venue =
     fresh_venue\<lparr>brokerage_name := ''Slow'',
                 authenticate := (\<lambda>auth accs. (Inl TimeoutError, False, Some []))\<rparr>"

definition partial_app :: trading_app where
  "partial_app =
     \<lparr>clients = [fresh_venue, refused_venue], initialized = False, authenticated_clients = []\<rparr>"

definition failing_app :: trading_app where
  "failing_app =
     \<lparr>clients = [refused_venue, slow_venue], initialized = False, authenticated_clients = []\<rparr>"

definition balances_app :: trading_app where
  "balances_app =
     \<lparr>clients = [ledger_venue, refused_venue, demo_venue], initialized = True,
      authenticated_clients = [0, 2]\<rparr>"

section \<open>Results and traces of awaited calls\<close>

lemma fst_io_return: "fst (io_return x) = Inr x"
  by (simp add: io_return_def)

lemma snd_io_return: "snd (io_return x) = []"
  by (simp add: io_return_def)

lemma fst_io_call: "fst (io_call ev answer) = answer"
  by (simp add: io_call_def)

lemma snd_io_call: "snd (io_call ev answer) = [ev]"
  by (simp add: io_call_def)

lemma fst_io_pure: "fst (io_pure result) = result"
  by (simp add: io_pure_def)

lemma snd_io_pure: "snd (io_pure result) = []"
  by (simp add: io_pure_def)

lemma fst_io_bind:
  "fst (io_bind m f) = (case fst m of Inl e \<Rightarrow> Inl e | Inr x \<Rightarrow> fst (f x))"
  by (simp add: io_bind_def split: sum.splits)

lemma snd_io_bind:
  "snd (io_bind m f) = (case fst m of Inl e \<Rightarrow> snd m | Inr x \<Rightarrow> snd m @ snd (f x))"
  by (simp add: io_bind_def split: sum.splits)

lemmas io_simps =
  fst_io_return snd_io_return fst_io_call snd_io_call fst_io_pure snd_io_pure
  fst_io_bind snd_io_bind

lemma fst_get_trade_delay: "fst (get_trade_delay c) = Inr ()"
  by (simp add: get_trade_delay_def io_simps)

lemma snd_get_trade_delay:
  "snd (get_trade_delay c) = [Sleep (if delay c then Uniform 4 6 else Fixed 1)]"
  by (simp add: get_trade_delay_def io_simps)

lemma fst_has_position:
  "fst (has_position c a t) =
     (case get_stock_holdings c a of
        Inl e \<Rightarrow> Inl e
      | Inr ho \<Rightarrow> Inr (Some (case ho of None \<Rightarrow> False | Some h \<Rightarrow> t \<in> fst ` set h)))"
  by (auto simp: has_position_def io_simps split: sum.splits option.splits)

lemma snd_has_position: "snd (has_position c a t) = [Get_stock_holdings a]"
  by (simp add: has_position_def io_simps split: sum.splits)

lemmas example_venues =
  demo_venue_def demo_accounts_def rejecting_venue_def raising_venue_def ledger_venue_def
  fresh_venue_def refused_venue_def slow_venue_def

section \<open>The precondition evaluator\<close>

lemma account_number_returns:
  "accounts c \<noteq> None \<Longrightarrow> \<exists>number. get_account_number_from_id c a = Inr number"
  by (auto simp: get_account_number_from_id_def)

lemma check_preconditions_no_sleep:
  "Sleep d \<notin> set (snd (check_preconditions c a t p side))"
  by (simp add: check_preconditions_def io_simps snd_has_position fst_has_position
      split: sum.splits option.splits)

text \<open>
  Claim C2. With the backend authenticated, the ticker tradable and the market open (and
  an account table that is not \<^verbatim>\<open>None\<close>), the position rule has three cases. Holdings that list the ticker make the buy precondition
  false. Holdings that were fetched and do not list the ticker make the sell precondition
  false. Holdings that could not be fetched (\<^verbatim>\<open>None\<close>) make the sell precondition
  false and leave the buy precondition to the balance rule alone.
\<close>

theorem position_rule_tri_state:
  assumes "authenticated c" and "is_tradable c t = Inr True" and "is_market_open c = Inr True"
    and "accounts c \<noteq> None"
  shows "(get_stock_holdings c a = Inr (Some h) \<and> t \<in> fst ` set h \<longrightarrow>
            fst (check_preconditions c a t p ''buy'') = Inr False)
       \<and> (get_stock_holdings c a = Inr (Some h) \<and> t \<notin> fst ` set h \<longrightarrow>
            fst (check_preconditions c a t p ''sell'') = Inr False)
       \<and> (get_stock_holdings c a = Inr None \<longrightarrow>
            fst (check_preconditions c a t p ''sell'') = Inr False
          \<and> fst (check_preconditions c a t p ''buy'') =
              (case get_account_balance c a of
                 Inl e \<Rightarrow> Inl e
               | Inr None \<Rightarrow> Inr False
               | Inr (Some b) \<Rightarrow> Inr (p + transaction_fee c + 0.2 \<le> b)))"
  using assms account_number_returns [of c a]
  by (auto simp: check_preconditions_def io_simps fst_has_position
      split: sum.splits option.splits)

theorem position_rule_tri_state_witness:
  "fst (check_preconditions demo_venue ''A1'' ''XYZ'' 10 ''buy'') = Inr False
 \<and> fst (check_preconditions demo_venue ''A2'' ''XYZ'' 10 ''sell'') = Inr False
 \<and> fst (check_preconditions demo_venue ''A3'' ''XYZ'' 10 ''sell'') = Inr False
 \<and> fst (check_preconditions demo_venue ''A3'' ''XYZ'' 10 ''buy'') = Inr True"
proof -
  have pre: "authenticated demo_venue" "is_tradable demo_venue ''XYZ'' = Inr True"
    "is_market_open demo_venue = Inr True" "accounts demo_venue \<noteq> None"
    by (simp_all add: example_venues)
  have held: "get_stock_holdings demo_venue ''A1'' = Inr (Some [(''XYZ'', 1)])
      \<and> ''XYZ'' \<in> fst ` set [(''XYZ'', 1 :: real)]"
    by (simp add: example_venues)
  have not_held: "get_stock_holdings demo_venue ''A2'' = Inr (Some [(''ABC'', 2)])
      \<and> ''XYZ'' \<notin> fst ` set [(''ABC'', 2 :: real)]"
    by (simp add: example_venues)
  have unknown: "get_stock_holdings demo_venue ''A3'' = Inr None"
    by (simp add: example_venues)
  have balance: "get_account_balance demo_venue ''A3'' = Inr (Some 50)"
    "transaction_fee demo_venue = 0"
    by (simp_all add: example_venues)
  from position_rule_tri_state [OF pre, where a = "''A1''" and h = "[(''XYZ'', 1)]" and p = "10"] held
  have "fst (check_preconditions demo_venue ''A1'' ''XYZ'' 10 ''buy'') = Inr False"
    by blast
  moreover
  from position_rule_tri_state [OF pre, where a = "''A2''" and h = "[(''ABC'', 2)]" and p = "10"] not_held
  have "fst (check_preconditions demo_venue ''A2'' ''XYZ'' 10 ''sell'') = Inr False"
    by blast
  moreover
  from position_rule_tri_state [OF pre, where a = "''A3''" and h = "[]" and p = "10"] unknown
  have "fst (check_preconditions demo_venue ''A3'' ''XYZ'' 10 ''sell'') = Inr False
      \<and> fst (check_preconditions demo_venue ''A3'' ''XYZ'' 10 ''buy'') =
          (case get_account_balance demo_venue ''A3'' of
             Inl e \<Rightarrow> Inl e
           | Inr None \<Rightarrow> Inr False
           | Inr (Some b) \<Rightarrow> Inr (10 + transaction_fee demo_venue + 0.2 \<le> b))"
    by blast
  then have "fst (check_preconditions demo_venue ''A3'' ''XYZ'' 10 ''sell'') = Inr False
      \<and> fst (check_preconditions demo_venue ''A3'' ''XYZ'' 10 ''buy'') = Inr True"
    by (simp add: balance)
  ultimately show ?thesis by blast
qed



lemma sell_passes_iff:
  "fst (check_preconditions c a t p ''sell'') = Inr True \<longleftrightarrow>
      authenticated c \<and> is_tradable c t = Inr True \<and> is_market_open c = Inr True
      \<and> (\<exists>h. get_stock_holdings c a = Inr (Some h) \<and> t \<in> fst ` set h)"
  by (auto simp: check_preconditions_def io_simps fst_has_position
      split: sum.splits option.splits)

lemma account_number_balance_field:
  "get_account_number_from_id (c\<lparr>get_account_balance := g\<rparr>) a = get_account_number_from_id c a"
  by (simp add: get_account_number_from_id_def)

lemma sell_balance_field_unused:
  "check_preconditions (c\<lparr>get_account_balance := g\<rparr>) a t p ''sell''
     = check_preconditions c a t p ''sell''"
proof (rule prod_eqI)
  show "fst (check_preconditions (c\<lparr>get_account_balance := g\<rparr>) a t p ''sell'')
      = fst (check_preconditions c a t p ''sell'')"
    by (simp add: check_preconditions_def io_simps fst_has_position
        account_number_balance_field split: sum.splits option.splits)
  show "snd (check_preconditions (c\<lparr>get_account_balance := g\<rparr>) a t p ''sell'')
      = snd (check_preconditions c a t p ''sell'')"
    by (simp add: check_preconditions_def io_simps fst_has_position snd_has_position
        account_number_balance_field split: sum.splits option.splits)
qed

lemma sell_trace_has_no_balance_call:
  "Get_account_balance x \<notin> set (snd (check_preconditions c a t p ''sell''))"
  by (simp add: check_preconditions_def io_simps snd_has_position
      split: sum.splits option.splits)

text \<open>
  Claim C10. A sell order passes the preconditions exactly when the backend is
  authenticated, the ticker is tradable, the market is open and the fetched holdings list
  the ticker. The evaluation makes no balance call, and its result and trace are the same
  whatever the venue would answer to a balance call.
\<close>

theorem sell_ignores_balance:
  "(fst (check_preconditions c a t p ''sell'') = Inr True \<longleftrightarrow>
      authenticated c \<and> is_tradable c t = Inr True \<and> is_market_open c = Inr True
      \<and> (\<exists>h. get_stock_holdings c a = Inr (Some h) \<and> t \<in> fst ` set h))
   \<and> check_preconditions (c\<lparr>get_account_balance := g\<rparr>) a t p ''sell''
       = check_preconditions c a t p ''sell''
   \<and> Get_account_balance x \<notin> set (snd (check_preconditions c a t p ''sell''))"
  by (intro conjI sell_passes_iff sell_balance_field_unused sell_trace_has_no_balance_call)

theorem sell_ignores_balance_witness:
  "check_preconditions (demo_venue\<lparr>get_account_balance := (\<lambda>a. Inr None)\<rparr>)
      ''A1'' ''XYZ'' 10 ''sell''
     = (Inr True, [Is_tradable ''XYZ'', Is_market_open, Get_stock_holdings ''A1''])
 \<and> check_preconditions (demo_venue\<lparr>get_account_balance := (\<lambda>a. Inr (Some 0))\<rparr>)
      ''A1'' ''XYZ'' 10 ''sell''
     = (Inr True, [Is_tradable ''XYZ'', Is_market_open, Get_stock_holdings ''A1''])"
proof -
  have "check_preconditions demo_venue ''A1'' ''XYZ'' 10 ''sell''
      = (Inr True, [Is_tradable ''XYZ'', Is_market_open, Get_stock_holdings ''A1''])"
    by (simp add: check_preconditions_def has_position_def example_venues
        io_bind_def io_call_def io_return_def io_pure_def)
  with sell_ignores_balance [where c = demo_venue and a = "''A1''" and t = "''XYZ''" and p = "10"
      and g = "\<lambda>a. Inr None"]
    sell_ignores_balance [where c = demo_venue and a = "''A1''" and t = "''XYZ''" and p = "10"
      and g = "\<lambda>a. Inr (Some 0)"]
  show ?thesis by simp
qed

section \<open>The placement wrappers\<close>

lemma fst_place_buy_orders:
  assumes "accounts c \<noteq> None"
  shows "fst (place_buy_orders c a t p ot) =
     (case fst (check_preconditions c a t p ''buy'') of
        Inl e \<Rightarrow> Inl e
      | Inr ok \<Rightarrow> if ok then raw_place_buy_orders c a t p ot else Inr False)"
  using account_number_returns [OF assms, of a]
  by (auto simp: place_buy_orders_def io_simps fst_get_trade_delay
      split: sum.splits)

lemma fst_place_sell_orders:
  assumes "accounts c \<noteq> None"
  shows "fst (place_sell_orders c a t p ot) =
     (case fst (check_preconditions c a t p ''sell'') of
        Inl e \<Rightarrow> Inl e
      | Inr ok \<Rightarrow> if ok then raw_place_sell_orders c a t p ot else Inr False)"
  using account_number_returns [OF assms, of a]
  by (auto simp: place_sell_orders_def io_simps fst_get_trade_delay
      split: sum.splits)

lemma snd_place_buy_orders:
  assumes "accounts c \<noteq> None"
  shows "snd (place_buy_orders c a t p ot) =
     (case fst (check_preconditions c a t p ''buy'') of
        Inl e \<Rightarrow> snd (check_preconditions c a t p ''buy'')
      | Inr ok \<Rightarrow>
          if ok then
            snd (check_preconditions c a t p ''buy'') @ Raw_place_buy a t p ot #
              (case raw_place_buy_orders c a t p ot of
                 Inl e \<Rightarrow> []
               | Inr placed \<Rightarrow> [Sleep (if delay c then Uniform 4 6 else Fixed 1)])
          else snd (check_preconditions c a t p ''buy''))"
  using account_number_returns [OF assms, of a]
  by (auto simp: place_buy_orders_def io_simps fst_get_trade_delay snd_get_trade_delay
      split: sum.splits)

lemma snd_place_sell_orders:
  assumes "accounts c \<noteq> None"
  shows "snd (place_sell_orders c a t p ot) =
     (case fst (check_preconditions c a t p ''sell'') of
        Inl e \<Rightarrow> snd (check_preconditions c a t p ''sell'')
      | Inr ok \<Rightarrow>
          if ok then
            snd (check_preconditions c a t p ''sell'') @ Raw_place_sell a t p ot #
              (case raw_place_sell_orders c a t p ot of
                 Inl e \<Rightarrow> []
               | Inr placed \<Rightarrow> [Sleep (if delay c then Uniform 4 6 else Fixed 1)])
          else snd (check_preconditions c a t p ''sell''))"
  using account_number_returns [OF assms, of a]
  by (auto simp: place_sell_orders_def io_simps fst_get_trade_delay snd_get_trade_delay
      split: sum.splits)

text \<open>
  Claim C1 says that the wrappers catch every exception of the raw placement primitive
  and return \<^verbatim>\<open>False\<close>. The wrappers have no handler: on the venue whose order call
  raises, the exception reaches the caller of \<^verbatim>\<open>place_buy_orders\<close>.
\<close>

theorem place_buy_orders_propagates_exception:
  "fst (place_buy_orders raising_venue ''A2'' ''XYZ'' 10 ''market'')
     = Inl (OtherException ''connection reset'')"
  by (simp add: place_buy_orders_def check_preconditions_def has_position_def
      io_bind_def io_call_def io_return_def io_pure_def example_venues)

text \<open>
  Claim C1, amended. On a backend whose account table is not \<^verbatim>\<open>None\<close>, the
  outcome of a wrapper is decided by the precondition evaluation and the raw placement
  primitive: \<^verbatim>\<open>False\<close> when the preconditions evaluate to false, and otherwise
  whatever the raw primitive does, a returned boolean or a raised exception, which is
  passed on unchanged. An exception of the precondition evaluation is passed on as well.
\<close>

theorem placement_wrapper_outcome:
  assumes "accounts c \<noteq> None"
  shows "fst (place_buy_orders c a t p ot) =
     (case fst (check_preconditions c a t p ''buy'') of
        Inl e \<Rightarrow> Inl e
      | Inr ok \<Rightarrow> if ok then raw_place_buy_orders c a t p ot else Inr False)
 \<and> fst (place_sell_orders c a t p ot) =
     (case fst (check_preconditions c a t p ''sell'') of
        Inl e \<Rightarrow> Inl e
      | Inr ok \<Rightarrow> if ok then raw_place_sell_orders c a t p ot else Inr False)"
  using assms by (intro conjI fst_place_buy_orders fst_place_sell_orders)

theorem placement_wrapper_outcome_witness:
  "fst (place_buy_orders rejecting_venue ''A2'' ''XYZ'' 10 ''market'') = Inr False
 \<and> fst (place_sell_orders raising_venue ''A1'' ''XYZ'' 10 ''market'')
     = Inl (OtherException ''connection reset'')
 \<and> fst (place_sell_orders demo_venue ''A1'' ''XYZ'' 10 ''market'') = Inr True
 \<and> fst (place_buy_orders demo_venue ''A1'' ''XYZ'' 10 ''market'') = Inr False"
proof -
  have tables: "accounts rejecting_venue \<noteq> None" "accounts raising_venue \<noteq> None"
    "accounts demo_venue \<noteq> None"
    by (simp_all add: example_venues)
  have checks: "fst (check_preconditions rejecting_venue ''A2'' ''XYZ'' 10 ''buy'') = Inr True"
    "fst (check_preconditions raising_venue ''A1'' ''XYZ'' 10 ''sell'') = Inr True"
    "fst (check_preconditions demo_venue ''A1'' ''XYZ'' 10 ''sell'') = Inr True"
    "fst (check_preconditions demo_venue ''A1'' ''XYZ'' 10 ''buy'') = Inr False"
    by (simp_all add: check_preconditions_def has_position_def get_account_number_from_id_def
        example_venues io_bind_def io_call_def io_return_def io_pure_def)
  have raw: "raw_place_buy_orders rejecting_venue ''A2'' ''XYZ'' 10 ''market'' = Inr False"
    "raw_place_sell_orders raising_venue ''A1'' ''XYZ'' 10 ''market''
       = Inl (OtherException ''connection reset'')"
    "raw_place_sell_orders demo_venue ''A1'' ''XYZ'' 10 ''market'' = Inr True"
    by (simp_all add: example_venues)
  from placement_wrapper_outcome [OF tables(1), of "''A2''" "''XYZ''" 10 "''market''"]
  have "fst (place_buy_orders rejecting_venue ''A2'' ''XYZ'' 10 ''market'') = Inr False"
    by (simp add: checks raw)
  moreover
  from placement_wrapper_outcome [OF tables(2), of "''A1''" "''XYZ''" 10 "''market''"]
  have "fst (place_sell_orders raising_venue ''A1'' ''XYZ'' 10 ''market'')
      = Inl (OtherException ''connection reset'')"
    by (simp add: checks raw)
  moreover
  from placement_wrapper_outcome [OF tables(3), of "''A1''" "''XYZ''" 10 "''market''"]
  have "fst (place_sell_orders demo_venue ''A1'' ''XYZ'' 10 ''market'') = Inr True"
    and "fst (place_buy_orders demo_venue ''A1'' ''XYZ'' 10 ''market'') = Inr False"
    by (simp_all add: checks raw)
  ultimately show ?thesis by blast
qed

text \<open>
  Claim C9. On a backend whose account table is not \<^verbatim>\<open>None\<close>: when the
  preconditions pass and the raw placement call returns, with
  \<^verbatim>\<open>True\<close> or with \<^verbatim>\<open>False\<close>, the wrapper returns that boolean and its trace is
  the precondition calls, the raw call and then the trade delay of the backend's policy.
  When the preconditions fail, the wrapper returns \<^verbatim>\<open>False\<close> and its trace has no
  sleep.
\<close>

theorem trade_delay_policy:
  assumes "accounts c \<noteq> None"
  shows "(fst (check_preconditions c a t p ''buy'') = Inr True
      \<and> raw_place_buy_orders c a t p ot = Inr placed \<longrightarrow>
    place_buy_orders c a t p ot =
      (Inr placed,
       snd (check_preconditions c a t p ''buy'')
         @ [Raw_place_buy a t p ot, Sleep (if delay c then Uniform 4 6 else Fixed 1)]))
 \<and> (fst (check_preconditions c a t p ''buy'') = Inr False \<longrightarrow>
    fst (place_buy_orders c a t p ot) = Inr False
      \<and> Sleep d \<notin> set (snd (place_buy_orders c a t p ot)))
 \<and> (fst (check_preconditions c a t p ''sell'') = Inr True
      \<and> raw_place_sell_orders c a t p ot = Inr placed \<longrightarrow>
    place_sell_orders c a t p ot =
      (Inr placed,
       snd (check_preconditions c a t p ''sell'')
         @ [Raw_place_sell a t p ot, Sleep (if delay c then Uniform 4 6 else Fixed 1)]))
 \<and> (fst (check_preconditions c a t p ''sell'') = Inr False \<longrightarrow>
    fst (place_sell_orders c a t p ot) = Inr False
      \<and> Sleep d \<notin> set (snd (place_sell_orders c a t p ot)))"
proof (intro conjI impI)
  assume "fst (check_preconditions c a t p ''buy'') = Inr True
      \<and> raw_place_buy_orders c a t p ot = Inr placed"
  then show "place_buy_orders c a t p ot =
      (Inr placed,
       snd (check_preconditions c a t p ''buy'')
         @ [Raw_place_buy a t p ot, Sleep (if delay c then Uniform 4 6 else Fixed 1)])"
    by (intro prod_eqI) (simp_all add: fst_place_buy_orders snd_place_buy_orders assms)
next
  assume "fst (check_preconditions c a t p ''buy'') = Inr False"
  then show "fst (place_buy_orders c a t p ot) = Inr False"
    and "Sleep d \<notin> set (snd (place_buy_orders c a t p ot))"
    by (simp_all add: fst_place_buy_orders snd_place_buy_orders check_preconditions_no_sleep
        assms)
next
  assume "fst (check_preconditions c a t p ''sell'') = Inr True
      \<and> raw_place_sell_orders c a t p ot = Inr placed"
  then show "place_sell_orders c a t p ot =
      (Inr placed,
       snd (check_preconditions c a t p ''sell'')
         @ [Raw_place_sell a t p ot, Sleep (if delay c then Uniform 4 6 else Fixed 1)])"
    by (intro prod_eqI) (simp_all add: fst_place_sell_orders snd_place_sell_orders assms)
next
  assume "fst (check_preconditions c a t p ''sell'') = Inr False"
  then show "fst (place_sell_orders c a t p ot) = Inr False"
    and "Sleep d \<notin> set (snd (place_sell_orders c a t p ot))"
    by (simp_all add: fst_place_sell_orders snd_place_sell_orders check_preconditions_no_sleep
        assms)
qed

lemma demo_preconditions:
  "check_preconditions demo_venue ''A2'' ''XYZ'' 10 ''buy''
     = (Inr True, [Is_tradable ''XYZ'', Is_market_open, Get_stock_holdings ''A2'',
                   Get_account_balance ''A2''])"
  "check_preconditions demo_venue ''A1'' ''XYZ'' 10 ''buy''
     = (Inr False, [Is_tradable ''XYZ'', Is_market_open, Get_stock_holdings ''A1''])"
  "check_preconditions demo_venue ''A1'' ''XYZ'' 10 ''sell''
     = (Inr True, [Is_tradable ''XYZ'', Is_market_open, Get_stock_holdings ''A1''])"
  "check_preconditions demo_venue ''A2'' ''XYZ'' 10 ''sell''
     = (Inr False, [Is_tradable ''XYZ'', Is_market_open, Get_stock_holdings ''A2''])"
  by (simp_all add: check_preconditions_def has_position_def get_account_number_from_id_def
      example_venues io_bind_def io_call_def io_return_def io_pure_def)

lemma rejecting_preconditions:
  "check_preconditions rejecting_venue a t p side = check_preconditions demo_venue a t p side"
  by (intro prod_eqI)
    (simp_all add: check_preconditions_def io_simps fst_has_position snd_has_position
      get_account_number_from_id_def rejecting_venue_def split: sum.splits option.splits)

theorem trade_delay_policy_witness:
  "place_buy_orders demo_venue ''A2'' ''XYZ'' 10 ''market''
     = (Inr True, [Is_tradable ''XYZ'', Is_market_open, Get_stock_holdings ''A2'',
                   Get_account_balance ''A2'', Raw_place_buy ''A2'' ''XYZ'' 10 ''market'',
                   Sleep (Uniform 4 6)])
 \<and> place_sell_orders rejecting_venue ''A1'' ''XYZ'' 10 ''market''
     = (Inr False, [Is_tradable ''XYZ'', Is_market_open, Get_stock_holdings ''A1'',
                    Raw_place_sell ''A1'' ''XYZ'' 10 ''market'', Sleep (Uniform 4 6)])
 \<and> fst (place_buy_orders demo_venue ''A1'' ''XYZ'' 10 ''market'') = Inr False
 \<and> Sleep (Uniform 4 6) \<notin> set (snd (place_buy_orders demo_venue ''A1'' ''XYZ'' 10 ''market''))
 \<and> fst (place_sell_orders demo_venue ''A2'' ''XYZ'' 10 ''market'') = Inr False
 \<and> Sleep (Uniform 4 6) \<notin> set (snd (place_sell_orders demo_venue ''A2'' ''XYZ'' 10 ''market''))"
proof -
  have raw: "raw_place_buy_orders demo_venue ''A2'' ''XYZ'' 10 ''market'' = Inr True"
    "raw_place_sell_orders rejecting_venue ''A1'' ''XYZ'' 10 ''market'' = Inr False"
    "delay demo_venue" "delay rejecting_venue"
    by (simp_all add: example_venues)
  have tables: "accounts demo_venue \<noteq> None" "accounts rejecting_venue \<noteq> None"
    by (simp_all add: example_venues)
  from trade_delay_policy [OF tables(1), where a = "''A2''" and t = "''XYZ''" and p = "10"
      and ot = "''market''" and placed = True]
  have "place_buy_orders demo_venue ''A2'' ''XYZ'' 10 ''market''
     = (Inr True, [Is_tradable ''XYZ'', Is_market_open, Get_stock_holdings ''A2'',
                   Get_account_balance ''A2'', Raw_place_buy ''A2'' ''XYZ'' 10 ''market'',
                   Sleep (Uniform 4 6)])"
    by (simp add: demo_preconditions raw)
  moreover
  from trade_delay_policy [OF tables(2), where a = "''A1''" and t = "''XYZ''"
      and p = "10" and ot = "''market''" and placed = False]
  have "place_sell_orders rejecting_venue ''A1'' ''XYZ'' 10 ''market''
     = (Inr False, [Is_tradable ''XYZ'', Is_market_open, Get_stock_holdings ''A1'',
                    Raw_place_sell ''A1'' ''XYZ'' 10 ''market'', Sleep (Uniform 4 6)])"
    by (simp add: rejecting_preconditions demo_preconditions raw)
  moreover
  from trade_delay_policy [OF tables(1), where a = "''A1''" and t = "''XYZ''" and p = "10"
      and ot = "''market''" and d = "Uniform 4 6"]
  have "fst (place_buy_orders demo_venue ''A1'' ''XYZ'' 10 ''market'') = Inr False
      \<and> Sleep (Uniform 4 6) \<notin> set (snd (place_buy_orders demo_venue ''A1'' ''XYZ'' 10 ''market''))"
    by (simp add: demo_preconditions)
  moreover
  from trade_delay_policy [OF tables(1), where a = "''A2''" and t = "''XYZ''" and p = "10"
      and ot = "''market''" and d = "Uniform 4 6"]
  have "fst (place_sell_orders demo_venue ''A2'' ''XYZ'' 10 ''market'') = Inr False
      \<and> Sleep (Uniform 4 6) \<notin> set (snd (place_sell_orders demo_venue ''A2'' ''XYZ'' 10 ''market''))"
    by (simp add: demo_preconditions)
  ultimately show ?thesis by blast
qed

section \<open>Initialisation\<close>

lemma authenticate_client_length:
  "length (clients (authenticate_client i app)) = length (clients app)"
  by (simp add: authenticate_client_def Let_def split: prod.splits sum.splits)

lemma authenticate_client_other:
  "j \<noteq> i \<Longrightarrow> clients (authenticate_client i app) ! j = clients app ! j"
  by (simp add: authenticate_client_def Let_def split: prod.splits sum.splits)

lemma authenticate_client_authenticated:
  assumes "i \<notin> set (authenticated_clients app)"
  shows "authenticated_clients (authenticate_client i app) =
           authenticated_clients app @ (if auth_succeeds (clients app ! i) then [i] else [])"
  using assms
  by (auto simp: authenticate_client_def auth_succeeds_def Let_def remove1_append
      split: prod.splits sum.splits)

lemma fold_authenticate_client_length:
  "length (clients (fold authenticate_client js app)) = length (clients app)"
  by (induction js arbitrary: app) (simp_all add: authenticate_client_length)

lemma fold_authenticate_client:
  assumes "distinct js" and "set js \<inter> set (authenticated_clients app) = {}"
  shows "authenticated_clients (fold authenticate_client js app) =
           authenticated_clients app @ filter (\<lambda>i. auth_succeeds (clients app ! i)) js"
  using assms
proof (induction js arbitrary: app)
  case Nil
  then show ?case by simp
next
  case (Cons j js)
  let ?app = "authenticate_client j app"
  from Cons.prems have j: "j \<notin> set (authenticated_clients app)" and "j \<notin> set js"
    and js: "distinct js" and disj: "set js \<inter> set (authenticated_clients app) = {}"
    by auto
  have step: "authenticated_clients ?app =
      authenticated_clients app @ (if auth_succeeds (clients app ! j) then [j] else [])"
    using j by (rule authenticate_client_authenticated)
  with disj \<open>j \<notin> set js\<close> have "set js \<inter> set (authenticated_clients ?app) = {}"
    by auto
  with js have "authenticated_clients (fold authenticate_client js ?app) =
      authenticated_clients ?app @ filter (\<lambda>i. auth_succeeds (clients ?app ! i)) js"
    by (rule Cons.IH)
  moreover have "clients ?app ! i = clients app ! i" if "i \<in> set js" for i
  proof -
    from that \<open>j \<notin> set js\<close> have "i \<noteq> j" by blast
    then show ?thesis by (rule authenticate_client_other)
  qed
  then have "filter (\<lambda>i. auth_succeeds (clients ?app ! i)) js =
      filter (\<lambda>i. auth_succeeds (clients app ! i)) js"
    by (intro filter_cong refl) simp
  ultimately show ?case using step by simp
qed

lemma authentication_loop:
  "authenticated_clients
     (fold authenticate_client [0..<length (clients app)] (app\<lparr>authenticated_clients := []\<rparr>))
   = filter (\<lambda>i. auth_succeeds (clients app ! i)) [0..<length (clients app)]"
  using fold_authenticate_client
    [of "[0..<length (clients app)]" "app\<lparr>authenticated_clients := []\<rparr>"]
  by simp

lemma length_filter_positions:
  "length (filter (\<lambda>i. P (xs ! i)) [0..<length xs]) = length (filter P xs)"
proof -
  have "filter P (map ((!) xs) [0..<length xs]) =
      map ((!) xs) (filter (P \<circ> (!) xs) [0..<length xs])"
    by (rule filter_map)
  then have "length (filter P xs) = length (filter (P \<circ> (!) xs) [0..<length xs])"
    by (simp add: map_nth)
  then show ?thesis by (simp add: comp_def)
qed

text \<open>
  Claim C4. In a run that starts uninitialised with \<open>N\<close> backends of which \<open>k\<close>
  succeed, \<open>0 < k < N\<close>: when the operator's answer is not ``yes'' (in any letter case),
  \<^verbatim>\<open>initialize\<close> returns \<^verbatim>\<open>False\<close>; when it is ``yes'', \<^verbatim>\<open>initialize\<close> returns
  \<^verbatim>\<open>True\<close>, the application is initialised, and the authenticated clients are exactly
  the \<open>k\<close> backends that succeeded, in the order of \<^verbatim>\<open>self.clients\<close>.
\<close>

theorem initialize_degraded_mode:
  assumes "\<not> initialized app"
    and "length (filter auth_succeeds (clients app)) = k"
    and "0 < k" and "k < length (clients app)"
  shows "(lower response \<noteq> ''yes'' \<longrightarrow> fst (initialize (Inr response) app) = Inr False)
       \<and> (lower response = ''yes'' \<longrightarrow>
            fst (initialize (Inr response) app) = Inr True
          \<and> initialized (snd (initialize (Inr response) app))
          \<and> authenticated_clients (snd (initialize (Inr response) app)) =
              filter (\<lambda>i. auth_succeeds (clients app ! i)) [0..<length (clients app)]
          \<and> length (authenticated_clients (snd (initialize (Inr response) app))) = k)"
proof -
  let ?app2 = "fold authenticate_client [0..<length (clients app)]
      (app\<lparr>authenticated_clients := []\<rparr>)"
  let ?S = "filter (\<lambda>i. auth_succeeds (clients app ! i)) [0..<length (clients app)]"
  have S: "authenticated_clients ?app2 = ?S"
    by (rule authentication_loop)
  have len: "length ?S = k"
    using assms(2) by (simp add: length_filter_positions)
  have total: "length (clients ?app2) = length (clients app)"
    by (simp add: fold_authenticate_client_length)
  from len \<open>0 < k\<close> have nonempty: "?S \<noteq> []"
    by auto
  from len \<open>k < length (clients app)\<close> have partial: "length ?S < length (clients app)"
    by simp
  show ?thesis
    using assms(1) S len total nonempty partial
    by (simp add: initialize_def Let_def)
qed

theorem initialize_degraded_mode_witness:
  "fst (initialize (Inr ''no'') partial_app) = Inr False
 \<and> fst (initialize (Inr ''Yes'') partial_app) = Inr True
 \<and> authenticated_clients (snd (initialize (Inr ''Yes'') partial_app)) = [0]"
proof -
  have pre: "\<not> initialized partial_app"
    "length (filter auth_succeeds (clients partial_app)) = 1"
    "0 < (1 :: nat)" "1 < length (clients partial_app)"
    by (simp_all add: partial_app_def auth_succeeds_def verify_account_access_def
        example_venues)
  have answers: "lower ''no'' \<noteq> ''yes''" "lower ''Yes'' = ''yes''"
    by code_simp+
  have succeeded:
    "filter (\<lambda>i. auth_succeeds (clients partial_app ! i)) [0..<length (clients partial_app)]
       = [0]"
    by (simp add: partial_app_def auth_succeeds_def verify_account_access_def
        example_venues upt_rec)
  from initialize_degraded_mode [OF pre, of "''no''"] answers
  have "fst (initialize (Inr ''no'') partial_app) = Inr False"
    by blast
  moreover
  from initialize_degraded_mode [OF pre, of "''Yes''"] answers succeeded
  have "fst (initialize (Inr ''Yes'') partial_app) = Inr True
      \<and> authenticated_clients (snd (initialize (Inr ''Yes'') partial_app)) = [0]"
    by simp
  ultimately show ?thesis by blast
qed

text \<open>
  Claim C5. In a run that starts uninitialised and in which no backend succeeds,
  \<^verbatim>\<open>initialize\<close> returns \<^verbatim>\<open>False\<close> and leaves the list of authenticated clients
  empty. The operator is not asked.
\<close>

theorem initialize_no_backend:
  assumes "\<not> initialized app"
    and "\<forall>c \<in> set (clients app). \<not> auth_succeeds c"
  shows "fst (initialize answer app) = Inr False
       \<and> authenticated_clients (snd (initialize answer app)) = []"
proof -
  let ?app2 = "fold authenticate_client [0..<length (clients app)]
      (app\<lparr>authenticated_clients := []\<rparr>)"
  have "filter (\<lambda>i. auth_succeeds (clients app ! i)) [0..<length (clients app)] = []"
    using assms(2) by (simp add: filter_empty_conv)
  then have "authenticated_clients ?app2 = []"
    by (simp add: authentication_loop)
  then show ?thesis
    using assms(1) by (simp add: initialize_def Let_def)
qed

theorem initialize_no_backend_witness:
  "fst (initialize (Inr ''yes'') failing_app) = Inr False
 \<and> authenticated_clients (snd (initialize (Inr ''yes'') failing_app)) = []"
proof -
  have pre: "\<not> initialized failing_app"
    "\<forall>c \<in> set (clients failing_app). \<not> auth_succeeds c"
    by (simp_all add: failing_app_def auth_succeeds_def verify_account_access_def
        example_venues)
  from initialize_no_backend [OF pre] show ?thesis .
qed

section \<open>Trade execution\<close>

lemma gather_map:
  assumes "\<And>a. a \<in> set as \<Longrightarrow> f a = Inr (g a)"
  shows "gather (map f as) = Inr (map g as)"
  using assms by (induction as) simp_all





subsection \<open>The concurrency limit\<close>

lemma length_filter_update:
  "i < length xs \<Longrightarrow>
   length (filter P (xs[i := v])) + (if P (xs ! i) then 1 else 0) =
   length (filter P xs) + (if P v then 1 else 0)"
proof (induction xs arbitrary: i)
  case Nil
  then show ?case by simp
next
  case (Cons x xs)
  show ?case
  proof (cases i)
    case 0
    then show ?thesis by simp
  next
    case (Suc j)
    with Cons.prems have "j < length xs" by simp
    from Cons.IH [OF this] Suc show ?thesis by simp
  qed
qed

lemma task_step_permits:
  "permits (task_step i s) + in_flight (task_step i s) = permits s + in_flight s"
proof (cases "i < length (tasks s)")
  case False
  then show ?thesis by (simp add: task_step_def)
next
  case True
  note upd = length_filter_update [OF True, of "\<lambda>t. t = In_flight"]
  show ?thesis
  proof (cases "tasks s ! i")
    case Waiting
    with True upd [of In_flight] show ?thesis
      by (simp add: task_step_def in_flight_def)
  next
    case In_flight
    with True upd [of Done] show ?thesis
      by (simp add: task_step_def in_flight_def)
  next
    case Done
    with True show ?thesis by (simp add: task_step_def)
  qed
qed

lemma task_step_length: "length (tasks (task_step i s)) = length (tasks s)"
  by (simp add: task_step_def split: task_state.splits)

lemma run_schedule_permits:
  "permits (run_schedule schedule s) + in_flight (run_schedule schedule s)
     = permits s + in_flight s"
  unfolding run_schedule_def
  by (induction schedule arbitrary: s) (simp_all add: task_step_permits)

lemma run_schedule_length: "length (tasks (run_schedule schedule s)) = length (tasks s)"
  unfolding run_schedule_def
  by (induction schedule arbitrary: s) (simp_all add: task_step_length)

lemma start_trades_in_flight: "in_flight (start_trades c) = 0"
  by (simp add: start_trades_def in_flight_def split: option.splits)

text \<open>
  Claim C6. During one \<^verbatim>\<open>execute_client_trades\<close> on a backend there is one task
  per account, and whatever the order in which the event loop lets the tasks move, and
  however far it has got, the number of placement calls in flight does not exceed
  \<^verbatim>\<open>concur_trades\<close>.
\<close>

theorem concurrency_cap_respected:
  assumes "0 \<le> concur_trades c"
  shows "int (in_flight (run_schedule schedule (start_trades c))) \<le> concur_trades c
       \<and> length (tasks (run_schedule schedule (start_trades c))) = length (account_ids c)"
proof -
  have "permits (run_schedule schedule (start_trades c))
      + in_flight (run_schedule schedule (start_trades c)) = nat (concur_trades c)"
    by (simp add: run_schedule_permits start_trades_in_flight) (simp add: start_trades_def)
  then have "in_flight (run_schedule schedule (start_trades c)) \<le> nat (concur_trades c)"
    by linarith
  with assms have "int (in_flight (run_schedule schedule (start_trades c))) \<le> concur_trades c"
    by linarith
  moreover have "length (tasks (run_schedule schedule (start_trades c))) = length (account_ids c)"
    by (simp add: run_schedule_length) (simp add: start_trades_def account_ids_def split: option.splits)
  ultimately show ?thesis by blast
qed

theorem concurrency_cap_respected_witness:
  "in_flight (run_schedule [0, 1, 2, 2] (start_trades demo_venue)) = 2
 \<and> int (in_flight (run_schedule [0, 1, 2, 2] (start_trades demo_venue)))
     \<le> concur_trades demo_venue
 \<and> in_flight (run_schedule [0, 1, 2, 0, 2] (start_trades demo_venue)) = 2"
proof -
  have cap: "0 \<le> concur_trades demo_venue"
    by (simp add: example_venues)
  have "in_flight (run_schedule [0, 1, 2, 2] (start_trades demo_venue)) = 2"
    "in_flight (run_schedule [0, 1, 2, 0, 2] (start_trades demo_venue)) = 2"
    by (simp_all add: run_schedule_def task_step_def start_trades_def in_flight_def
        example_venues)
  with concurrency_cap_respected [OF cap, of "[0, 1, 2, 2]"] show ?thesis
    by simp
qed

section \<open>Balance aggregation\<close>

lemma foldl_add_sum_list:
  "foldl (\<lambda>total x. total + g x) (a :: real) xs = a + sum_list (map g xs)"
  by (induction xs arbitrary: a) simp_all

lemma sum_balances_subtotal: "sum_balances balances = subtotal balances"
proof -
  have "(\<lambda>balance. case balance of None \<Rightarrow> (0 :: real) | Some b \<Rightarrow> if b \<noteq> 0 then b else 0)
      = (\<lambda>balance. case balance of None \<Rightarrow> 0 | Some b \<Rightarrow> b)"
    by (auto split: option.splits)
  then show ?thesis
    by (simp add: sum_balances_def subtotal_def foldl_add_sum_list)
qed

lemma gather_balances:
  assumes "accounts c = Some table"
    and "\<forall>a \<in> set (account_ids c). \<exists>b. get_account_balance c a = Inr b"
  shows "gather (map (get_account_balance c) (map snd table)) = Inr (account_balances c)"
proof -
  from assms(1) have ids: "account_ids c = map snd table"
    by (simp add: account_ids_def)
  have "gather (map (get_account_balance c) (account_ids c)) =
      Inr (map (\<lambda>a. case get_account_balance c a of Inl e \<Rightarrow> None | Inr b \<Rightarrow> b) (account_ids c))"
  proof (rule gather_map)
    fix a
    assume "a \<in> set (account_ids c)"
    with assms(2) obtain b where "get_account_balance c a = Inr b"
      by blast
    then show "get_account_balance c a =
        Inr (case get_account_balance c a of Inl e \<Rightarrow> None | Inr b \<Rightarrow> b)"
      by simp
  qed
  then show ?thesis
    by (simp only: ids account_balances_def)
qed

lemma subtotal_no_accounts: "account_ids c = [] \<Longrightarrow> subtotal (account_balances c) = 0"
  by (simp add: account_balances_def subtotal_def)

lemma account_ids_empty:
  "account_ids c = [] \<longleftrightarrow> accounts c = None \<or> accounts c = Some []"
  by (simp add: account_ids_def split: option.splits)

text \<open>The totals per name after the clients \<open>cs\<close>, from the totals \<open>m\<close>.\<close>

lemma balances_loop_result:
  assumes "\<forall>c \<in> set cs. \<forall>a \<in> set (account_ids c). \<exists>b. get_account_balance c a = Inr b"
  shows "balances_loop cs (m, g) =
           Inr (foldl (\<lambda>m c. if account_ids c = [] then m
                              else m(brokerage_name c \<mapsto> subtotal (account_balances c))) m cs,
                g + sum_list (map (\<lambda>c. subtotal (account_balances c)) cs))"
  using assms
proof (induction cs arbitrary: m g)
  case Nil
  then show ?case by simp
next
  case (Cons c cs)
  then have rest: "\<forall>c \<in> set cs. \<forall>a \<in> set (account_ids c).
      \<exists>b. get_account_balance c a = Inr b"
    and this_one: "\<forall>a \<in> set (account_ids c). \<exists>b. get_account_balance c a = Inr b"
    by simp_all
  show ?case
  proof (cases "account_ids c = []")
    case True
    then have "balances_loop (c # cs) (m, g) = balances_loop cs (m, g)"
      by (auto simp: account_ids_empty)
    with True show ?thesis
      using Cons.IH [OF rest, of m g] by (simp add: subtotal_no_accounts)
  next
    case False
    let ?t = "subtotal (account_balances c)"
    let ?F = "\<lambda>m c. if account_ids c = [] then m
        else m(brokerage_name c \<mapsto> subtotal (account_balances c))"
    from False obtain table where table: "accounts c = Some table" "table \<noteq> []"
      by (auto simp: account_ids_empty)
    from table gather_balances [OF table(1) this_one]
    have "balances_loop (c # cs) (m, g) =
        balances_loop cs (m(brokerage_name c \<mapsto> ?t), g + ?t)"
      by (simp add: sum_balances_subtotal Let_def del: map_map)
    also have "\<dots> = Inr (foldl ?F (m(brokerage_name c \<mapsto> ?t)) cs,
        g + ?t + sum_list (map (\<lambda>c. subtotal (account_balances c)) cs))"
      by (rule Cons.IH [OF rest])
    also have "foldl ?F (m(brokerage_name c \<mapsto> ?t)) cs = foldl ?F m (c # cs)"
      using False by simp
    also have "g + ?t + sum_list (map (\<lambda>c. subtotal (account_balances c)) cs) =
        g + sum_list (map (\<lambda>c. subtotal (account_balances c)) (c # cs))"
      by simp
    finally show ?thesis .
  qed
qed

lemma totals_other_name:
  assumes "n \<notin> brokerage_name ` set cs"
  shows "foldl (\<lambda>m c. if account_ids c = [] then m
                       else m(brokerage_name c \<mapsto> subtotal (account_balances c))) m cs n = m n"
  using assms by (induction cs arbitrary: m) auto

lemma totals_lookup:
  assumes "distinct (map brokerage_name cs)" and "c \<in> set cs" and "account_ids c \<noteq> []"
  shows "foldl (\<lambda>m c. if account_ids c = [] then m
                       else m(brokerage_name c \<mapsto> subtotal (account_balances c))) m cs
           (brokerage_name c) = Some (subtotal (account_balances c))"
  using assms
proof (induction cs arbitrary: m)
  case Nil
  then show ?case by simp
next
  case (Cons d cs)
  show ?case
  proof (cases "c = d")
    case True
    with Cons.prems have "brokerage_name c \<notin> brokerage_name ` set cs"
      by simp
    with True Cons.prems(3) show ?thesis
      by (simp add: totals_other_name)
  next
    case False
    with Cons.prems have "distinct (map brokerage_name cs)" and "c \<in> set cs"
      by simp_all
    from Cons.IH [OF this Cons.prems(3)] show ?thesis
      by simp
  qed
qed

lemma total_accounts_returns:
  assumes "\<forall>c \<in> set cs. accounts c \<noteq> None"
  shows "\<exists>n. total_accounts cs = Inr n"
  using assms by (induction cs) auto

text \<open>
  Claim C8. When no balance call raises and the brokerage names are distinct, the
  aggregation loop of \<^verbatim>\<open>get_all_account_balances\<close> gives, for every backend that
  has accounts, the subtotal that is the sum of the balances of its accounts with every
  \<^verbatim>\<open>None\<close> counted as zero, and the grand total is the sum of the subtotals of all
  backends. \<^verbatim>\<open>get_all_account_balances\<close> returns these totals when every account
  table is a dict. A backend with the balances 100, \<^verbatim>\<open>None\<close> and 50 has the
  subtotal 150.
\<close>

theorem balance_aggregation:
  assumes "\<forall>c \<in> set (clients app). \<forall>a \<in> set (account_ids c).
             \<exists>b. get_account_balance c a = Inr b"
    and "distinct (map brokerage_name (clients app))"
  shows "\<exists>brokerage_totals grand_total.
           balances_loop (clients app) (Map.empty, 0) = Inr (brokerage_totals, grand_total)
         \<and> (\<forall>c \<in> set (clients app). account_ids c \<noteq> [] \<longrightarrow>
              brokerage_totals (brokerage_name c) = Some (subtotal (account_balances c)))
         \<and> grand_total = sum_list (map (\<lambda>c. subtotal (account_balances c)) (clients app))
         \<and> ((\<forall>c \<in> set (clients app). accounts c \<noteq> None) \<longrightarrow>
              get_all_account_balances app = Inr (brokerage_totals, grand_total))"
proof -
  let ?totals = "foldl (\<lambda>m c. if account_ids c = [] then m
      else m(brokerage_name c \<mapsto> subtotal (account_balances c))) Map.empty (clients app)"
  let ?grand = "sum_list (map (\<lambda>c. subtotal (account_balances c)) (clients app))"
  have loop: "balances_loop (clients app) (Map.empty, 0) = Inr (?totals, ?grand)"
    using balances_loop_result [OF assms(1), of Map.empty 0] by simp
  have lookup: "\<forall>c \<in> set (clients app). account_ids c \<noteq> [] \<longrightarrow>
      ?totals (brokerage_name c) = Some (subtotal (account_balances c))"
    using totals_lookup [OF assms(2)] by blast
  have returned: "get_all_account_balances app = Inr (?totals, ?grand)"
    if "\<forall>c \<in> set (clients app). accounts c \<noteq> None"
  proof -
    from total_accounts_returns [OF that] obtain n
      where "total_accounts (clients app) = Inr n" ..
    with loop show ?thesis
      by (simp add: get_all_account_balances_def)
  qed
  from loop lookup returned show ?thesis
    by blast
qed

lemma example_balances:
  "account_balances ledger_venue = [Some 100, None, Some 50]"
  "account_balances demo_venue = [Some 100, Some 10.2, Some 50]"
  "account_balances refused_venue = []"
  by (simp_all add: account_balances_def account_ids_def example_venues)

theorem balance_aggregation_witness:
  "subtotal [Some 100, None, Some 50] = 150
 \<and> (\<exists>brokerage_totals.
       get_all_account_balances balances_app = Inr (brokerage_totals, 310.2)
     \<and> brokerage_totals ''Ledger'' = Some 150
     \<and> brokerage_totals ''Demo'' = Some 160.2)"
proof -
  have cs: "clients balances_app = [ledger_venue, refused_venue, demo_venue]"
    by (simp add: balances_app_def)
  have names: "brokerage_name ledger_venue = ''Ledger''" "brokerage_name demo_venue = ''Demo''"
    "brokerage_name refused_venue = ''Refused''"
    by (simp_all add: example_venues)
  have ids: "account_ids ledger_venue \<noteq> []" "account_ids demo_venue \<noteq> []"
    by (simp_all add: account_ids_def example_venues)
  have sums: "subtotal [Some 100, None, Some 50] = 150"
    by (simp add: subtotal_def)
  have tables: "\<forall>c \<in> set (clients balances_app). accounts c \<noteq> None"
    by (simp add: cs) (simp add: example_venues)
  have returns: "\<forall>c \<in> set (clients balances_app). \<forall>a \<in> set (account_ids c).
      \<exists>b. get_account_balance c a = Inr b"
    by (simp add: cs) (simp add: account_ids_def example_venues)
  have distinct_names: "distinct (map brokerage_name (clients balances_app))"
    by (simp add: cs names)
  from balance_aggregation [OF returns distinct_names] tables
  obtain brokerage_totals grand_total
    where result: "get_all_account_balances balances_app = Inr (brokerage_totals, grand_total)"
      and per_backend: "\<forall>c \<in> set (clients balances_app). account_ids c \<noteq> [] \<longrightarrow>
        brokerage_totals (brokerage_name c) = Some (subtotal (account_balances c))"
      and total: "grand_total =
        sum_list (map (\<lambda>c. subtotal (account_balances c)) (clients balances_app))"
    by blast
  from total have "grand_total = 310.2"
    by (simp add: cs example_balances subtotal_def)
  moreover from per_backend ids have "brokerage_totals ''Ledger'' = Some 150"
    and "brokerage_totals ''Demo'' = Some 160.2"
    by (simp_all add: cs names example_balances subtotal_def)
  ultimately show ?thesis
    using result sums by blast
qed

text \<open>
  The condition of the last part is needed: after a degraded initialisation in which a
  venue left \<^verbatim>\<open>None\<close> as its account table, counting the accounts raises.
\<close>

lemma balances_after_refused_login:
  "get_all_account_balances (snd (initialize (Inr ''yes'') partial_app)) = Inl TypeError"
proof -
  have yes: "lower ''yes'' = ''yes''"
    by code_simp
  have "clients (snd (initialize (Inr ''yes'') partial_app)) =
      [fresh_venue\<lparr>authenticated := True, accounts := Some demo_accounts\<rparr>,
       refused_venue\<lparr>authenticated := False, accounts := None\<rparr>]"
    by (simp add: initialize_def authenticate_client_def verify_account_access_def Let_def
        partial_app_def example_venues upt_rec yes)
  then show ?thesis
    by (simp add: get_all_account_balances_def sum_balances_def Let_def example_venues
        split: sum.splits)
qed

end
